theory Spec2Isabelle
  imports Main "HOL-Library.Sublist"
begin

section \<open>Data model of \<open>src/lib/index.tsx\<close>\<close>

text \<open>
  The class \<open>ComponentHost\<close> is embedded with explicit state passing. A method that ends
  in \<open>return this\<close> is a function from the host to the updated host, so the chained call
  \<open>host.m1(..).m2(..)\<close> is \<open>m2 .. (m1 .. host)\<close>. Values the host only stores and hands on
  (views, reducers, effectors, enhancers, middleware, state values) are type variables.

  Two kinds of JavaScript objects are shared by reference and therefore live in an
  explicit store, the \<open>world\<close>: the plain object behind \<open>initialState\<close>, which
  \<open>setInitialState\<close> writes in place and \<open>createStore\<close> passes on, and the store objects
  made by \<open>Redux.createStore\<close>.
\<close>

type_synonym ref = nat

type_synonym 'v object = "string \<Rightarrow> 'v option"

text \<open>\<open>interface Part\<close>. The field \<open>section\<close> is written \<open>section'\<close>.\<close>

record 'c Part =
  section' :: string
  path :: string
  Component :: 'c
  exact :: bool

text \<open>
  The fields of the class. \<open>private _store\<close> is \<open>private_store\<close>: \<open>None\<close> while it is
  undefined, and the address of the store object afterwards. \<open>initialState\<close> is the
  address of its object. The field \<open>isDevelopment\<close> is declared but never assigned or
  read, and is left out.
\<close>

record ('r, 'e, 'n, 'm, 'c) ComponentHost =
  initialState :: ref
  reducers :: "'r list"
  effectors :: "'e list"
  enhancers :: "'n list"
  middleware :: "'m list"
  parts :: "'c Part list"
  private_store :: "ref option"

text \<open>
  A store object is represented by the three arguments of the call
  \<open>Redux.createStore(reducer, this.initialState, enhancer)\<close> that made it. The second
  argument is the object itself, not a copy, hence a reference.
\<close>

record ('red, 'n) Store =
  reducer :: 'red
  preloadedState :: ref
  enhancer :: 'n

record ('v, 'red, 'n) world =
  objects :: "ref \<Rightarrow> 'v object"
  fresh :: ref
  stores :: "('red, 'n) Store list"

text \<open>
  The library functions \<open>createStore\<close> calls, and the global
  \<open>window['__REDUX_DEVTOOLS_EXTENSION__']\<close> (\<open>None\<close> when it is not installed). They are
  parameters of the model.
\<close>

record ('r, 'e, 'n, 'm, 'red) externals =
  SideEffects_combineReducers :: "'r list \<Rightarrow> 'red"
  SideEffects_installSideEffects :: "'e list \<Rightarrow> 'n"
  Redux_applyMiddleware :: "'m list \<Rightarrow> 'n"
  Redux_compose :: "'n list \<Rightarrow> 'n"
  window_REDUX_DEVTOOLS_EXTENSION :: "(unit \<Rightarrow> 'n) option"

text \<open>
  What \<open>getSection\<close> returns: the element \<open><Section>\<close>, whose type is the component
  \<open>Switch\<close> or the tag \<open>'div'\<close>, with one \<open><Route exact path component key />\<close> per child.
\<close>

datatype container = Switch | Div

datatype 'c Route =
  Route (route_exact: bool) (route_path: string) (route_component: 'c) (route_key: nat)

datatype 'c element = Element (element_type: container) (children: "'c Route list")


section \<open>The methods\<close>

text \<open>The heap before anything is allocated.\<close>

definition empty_world :: "('v, 'red, 'n) world" where
  "empty_world = \<lparr>objects = (\<lambda>a. Map.empty), fresh = 0, stores = []\<rparr>"

text \<open>The constructor allocates the object \<open>{}\<close> for \<open>initialState\<close>; \<open>_store\<close> stays undefined.\<close>

definition constructor ::
  "('v, 'red, 'n) world \<Rightarrow> ('r, 'e, 'n, 'm, 'c) ComponentHost \<times> ('v, 'red, 'n) world" where
  "constructor w =
     (\<lparr>initialState = fresh w, reducers = [], effectors = [], enhancers = [],
       middleware = [], parts = [], private_store = None\<rparr>,
      w\<lparr>objects := (objects w)(fresh w := Map.empty), fresh := Suc (fresh w)\<rparr>)"

text \<open>\<open>this.initialState[key] = value; return this\<close>: a write into the shared object.\<close>

definition setInitialState ::
  "string \<Rightarrow> 'v \<Rightarrow> ('r, 'e, 'n, 'm, 'c) ComponentHost \<times> ('v, 'red, 'n) world
     \<Rightarrow> ('r, 'e, 'n, 'm, 'c) ComponentHost \<times> ('v, 'red, 'n) world" where
  "setInitialState key val s =
     (case s of (h, w) \<Rightarrow>
        (h, w\<lparr>objects := (objects w)(initialState h := (objects w (initialState h))(key \<mapsto> val))\<rparr>))"

definition addReducer ::
  "'r \<Rightarrow> ('r, 'e, 'n, 'm, 'c) ComponentHost \<Rightarrow> ('r, 'e, 'n, 'm, 'c) ComponentHost" where
  "addReducer r h = h\<lparr>reducers := reducers h @ [r]\<rparr>"

definition addEffector ::
  "'e \<Rightarrow> ('r, 'e, 'n, 'm, 'c) ComponentHost \<Rightarrow> ('r, 'e, 'n, 'm, 'c) ComponentHost" where
  "addEffector e h = h\<lparr>effectors := effectors h @ [e]\<rparr>"

definition addEnhancer ::
  "'n \<Rightarrow> ('r, 'e, 'n, 'm, 'c) ComponentHost \<Rightarrow> ('r, 'e, 'n, 'm, 'c) ComponentHost" where
  "addEnhancer n h = h\<lparr>enhancers := enhancers h @ [n]\<rparr>"

definition addMiddleware ::
  "'m \<Rightarrow> ('r, 'e, 'n, 'm, 'c) ComponentHost \<Rightarrow> ('r, 'e, 'n, 'm, 'c) ComponentHost" where
  "addMiddleware m h = h\<lparr>middleware := middleware h @ [m]\<rparr>"

text \<open>
  \<open>addPart(path, Component, section = 'main', exact = true)\<close>. An omitted argument is
  \<open>None\<close>; the default of the signature is taken then.
\<close>

definition addPart ::
  "string \<Rightarrow> 'c \<Rightarrow> string option \<Rightarrow> bool option
     \<Rightarrow> ('r, 'e, 'n, 'm, 'c) ComponentHost \<Rightarrow> ('r, 'e, 'n, 'm, 'c) ComponentHost" where
  "addPart pth cmp sec ex h =
     (let sec' = (case sec of None \<Rightarrow> ''main'' | Some s \<Rightarrow> s);
          ex' = (case ex of None \<Rightarrow> True | Some b \<Rightarrow> b)
      in h\<lparr>parts := parts h @ [\<lparr>section' = sec', path = pth, Component = cmp, exact = ex'\<rparr>]\<rparr>)"

text \<open>
  \<open>private createStore()\<close>. The arrays are spread into the calls, the state object is
  passed as it is. The new store object is allocated at the end of \<open>stores\<close>.
\<close>

definition createStore ::
  "('r, 'e, 'n, 'm, 'red) externals \<Rightarrow> ('r, 'e, 'n, 'm, 'c) ComponentHost
     \<Rightarrow> ('v, 'red, 'n) world \<Rightarrow> ref \<times> ('v, 'red, 'n) world" where
  "createStore env h w =
     (let red = SideEffects_combineReducers env (reducers h);
          enhs = [SideEffects_installSideEffects env (effectors h)] @ enhancers h;
          enhs = (if length (middleware h) \<noteq> 0
                  then enhs @ [Redux_applyMiddleware env (middleware h)] else enhs);
          enhs = (case window_REDUX_DEVTOOLS_EXTENSION env of
                    None \<Rightarrow> enhs
                  | Some reduxTools \<Rightarrow> enhs @ [reduxTools ()]);
          enh = Redux_compose env enhs
      in (length (stores w),
          w\<lparr>stores := stores w @ [\<lparr>reducer = red, preloadedState = initialState h, enhancer = enh\<rparr>]\<rparr>))"

text \<open>\<open>get store()\<close>: builds the store when \<open>_store\<close> is still undefined.\<close>

definition store ::
  "('r, 'e, 'n, 'm, 'red) externals \<Rightarrow> ('r, 'e, 'n, 'm, 'c) ComponentHost \<times> ('v, 'red, 'n) world
     \<Rightarrow> ref \<times> ('r, 'e, 'n, 'm, 'c) ComponentHost \<times> ('v, 'red, 'n) world" where
  "store env s =
     (case s of (h, w) \<Rightarrow>
        (case private_store h of
           None \<Rightarrow> (case createStore env h w of (r, w') \<Rightarrow> (r, h\<lparr>private_store := Some r\<rparr>, w'))
         | Some r \<Rightarrow> (r, h, w)))"

text \<open>\<open>Array.prototype.map\<close> with the callback's index argument.\<close>

fun map_from :: "nat \<Rightarrow> ('a \<Rightarrow> nat \<Rightarrow> 'b) \<Rightarrow> 'a list \<Rightarrow> 'b list" where
  "map_from i f [] = []"
| "map_from i f (x # xs) = f x i # map_from (Suc i) f xs"

definition Array_map :: "('a \<Rightarrow> nat \<Rightarrow> 'b) \<Rightarrow> 'a list \<Rightarrow> 'b list" where
  "Array_map f xs = map_from 0 f xs"

text \<open>\<open>getSection(name, exclusive = true)\<close>.\<close>

definition getSection ::
  "string \<Rightarrow> bool option \<Rightarrow> ('r, 'e, 'n, 'm, 'c) ComponentHost \<Rightarrow> 'c element" where
  "getSection name exclusive h =
     (let exclusive' = (case exclusive of None \<Rightarrow> True | Some b \<Rightarrow> b);
          Section = (if exclusive' then Switch else Div);
          parts' = filter (\<lambda>part. section' part = name) (parts h)
      in Element Section
           (Array_map (\<lambda>part i. Route (exact part) (path part) (Component part) i) parts'))"


section \<open>Calls on a host\<close>

text \<open>
  The public operations of the class as one datatype, with the value a call returns
  (\<open>This\<close> for \<open>return this\<close>) and the state it leaves. \<open>run\<close> performs calls one after
  the other.
\<close>

datatype ('v, 'r, 'e, 'n, 'm, 'c) call =
    SetInitialState string 'v
  | AddReducer 'r
  | AddEffector 'e
  | AddEnhancer 'n
  | AddMiddleware 'm
  | AddPart string 'c "string option" "bool option"
  | GetStore
  | GetSection string "bool option"

datatype 'c result = This | StoreObject ref | Rendered "'c element"

fun invoke ::
  "('r, 'e, 'n, 'm, 'red) externals \<Rightarrow> ('v, 'r, 'e, 'n, 'm, 'c) call
     \<Rightarrow> ('r, 'e, 'n, 'm, 'c) ComponentHost \<times> ('v, 'red, 'n) world
     \<Rightarrow> 'c result \<times> ('r, 'e, 'n, 'm, 'c) ComponentHost \<times> ('v, 'red, 'n) world" where
  "invoke env (SetInitialState key val) s = (This, setInitialState key val s)"
| "invoke env (AddReducer r) s = (This, addReducer r (fst s), snd s)"
| "invoke env (AddEffector e) s = (This, addEffector e (fst s), snd s)"
| "invoke env (AddEnhancer n) s = (This, addEnhancer n (fst s), snd s)"
| "invoke env (AddMiddleware m) s = (This, addMiddleware m (fst s), snd s)"
| "invoke env (AddPart pth cmp sec ex) s = (This, addPart pth cmp sec ex (fst s), snd s)"
| "invoke env GetStore s = (case store env s of (r, s') \<Rightarrow> (StoreObject r, s'))"
| "invoke env (GetSection name exclusive) s = (Rendered (getSection name exclusive (fst s)), s)"

fun run ::
  "('r, 'e, 'n, 'm, 'red) externals \<Rightarrow> ('v, 'r, 'e, 'n, 'm, 'c) call list
     \<Rightarrow> ('r, 'e, 'n, 'm, 'c) ComponentHost \<times> ('v, 'red, 'n) world
     \<Rightarrow> ('r, 'e, 'n, 'm, 'c) ComponentHost \<times> ('v, 'red, 'n) world" where
  "run env [] s = s"
| "run env (c # cs) s = run env cs (snd (invoke env c s))"





section \<open>Rendering, as the specification describes the router\<close>

text \<open>
  Modelled from the spec: the route guard of the external router (react-router-dom is
  not part of this repository). For patterns without parameters and wildcards, an exact
  guard passes when pattern and current path have the same segments, a guard that is not
  exact when the pattern's segments are a prefix of the current path's.
\<close>

fun segments_from :: "string \<Rightarrow> string \<Rightarrow> string list" where
  "segments_from cur [] = (if cur = [] then [] else [cur])"
| "segments_from cur (c # cs) =
     (if c = CHR ''/''
      then (if cur = [] then [] else [cur]) @ segments_from [] cs
      else segments_from (cur @ [c]) cs)"

definition segments :: "string \<Rightarrow> string list" where
  "segments p = segments_from [] p"

definition route_guard :: "string \<Rightarrow> bool \<Rightarrow> string \<Rightarrow> bool" where
  "route_guard pattern ex current =
     (if ex then segments current = segments pattern
      else prefix (segments pattern) (segments current))"

text \<open>
  Modelled from the spec: what the two containers render at the current path, for a
  route guard \<open>g\<close> (\<open>Switch\<close>, \<open>Route\<close> and the rendering of \<open>'div'\<close> belong to
  react-router-dom and React, not to this repository). The result is the list of the
  views shown, in order. The exclusive container evaluates the guards in order and renders
  only the first child whose guard passes; the other container renders every child whose
  guard passes.
\<close>

definition render_Route :: "(string \<Rightarrow> bool \<Rightarrow> string \<Rightarrow> bool) \<Rightarrow> string \<Rightarrow> 'c Route \<Rightarrow> 'c list" where
  "render_Route g current r =
     (if g (route_path r) (route_exact r) current then [route_component r] else [])"

fun render_Switch :: "(string \<Rightarrow> bool \<Rightarrow> string \<Rightarrow> bool) \<Rightarrow> string \<Rightarrow> 'c Route list \<Rightarrow> 'c list" where
  "render_Switch g current [] = []"
| "render_Switch g current (r # rs) =
     (if g (route_path r) (route_exact r) current then [route_component r]
      else render_Switch g current rs)"

definition render_div :: "(string \<Rightarrow> bool \<Rightarrow> string \<Rightarrow> bool) \<Rightarrow> string \<Rightarrow> 'c Route list \<Rightarrow> 'c list" where
  "render_div g current rs = concat (map (render_Route g current) rs)"

definition render :: "(string \<Rightarrow> bool \<Rightarrow> string \<Rightarrow> bool) \<Rightarrow> string \<Rightarrow> 'c element \<Rightarrow> 'c list" where
  "render g current el =
     (case element_type el of
        Switch \<Rightarrow> render_Switch g current (children el)
      | Div \<Rightarrow> render_div g current (children el))"


section \<open>Facts about the embedding\<close>

lemma map_from_eq: "map_from i f xs = map (\<lambda>(k, x). f x k) (enumerate i xs)"
  by (induction xs arbitrary: i) auto

lemma length_map_from: "length (map_from i f xs) = length xs"
  by (induction xs arbitrary: i) auto

lemma map_from_append:
  "map_from i f (xs @ ys) = map_from i f xs @ map_from (i + length xs) f ys"
  by (induction xs arbitrary: i) auto

lemma children_getSection:
  "children (getSection name exclusive h) =
     map_from 0 (\<lambda>part i. Route (exact part) (path part) (Component part) i)
       (filter (\<lambda>p. section' p = name) (parts h))"
  by (simp add: getSection_def Array_map_def)

lemma element_type_getSection:
  "element_type (getSection name exclusive h) =
     (if (case exclusive of None \<Rightarrow> True | Some b \<Rightarrow> b) then Switch else Div)"
  by (simp add: getSection_def)

lemma route_component_map_from:
  "map route_component
     (map_from i (\<lambda>part k. Route (exact part) (path part) (Component part) k) ps)
     = map Component ps"
  by (induction ps arbitrary: i) auto

lemma render_Switch_map_from:
  "render_Switch g cur
     (map_from i (\<lambda>part k. Route (exact part) (path part) (Component part) k) ps)
     = (case find (\<lambda>p. g (path p) (exact p) cur) ps of None \<Rightarrow> [] | Some p \<Rightarrow> [Component p])"
  by (induction ps arbitrary: i) auto

lemma render_div_map_from:
  "render_div g cur
     (map_from i (\<lambda>part k. Route (exact part) (path part) (Component part) k) ps)
     = map Component (filter (\<lambda>p. g (path p) (exact p) cur) ps)"
  by (induction ps arbitrary: i) (auto simp: render_div_def render_Route_def)

lemma parts_run_AddPart:
  "parts (fst (run env (map (\<lambda>(pth, cmp, sec, ex). AddPart pth cmp sec ex) args) s)) =
     parts (fst s) @
     map (\<lambda>(pth, cmp, sec, ex).
            \<lparr>section' = (case sec of None \<Rightarrow> ''main'' | Some x \<Rightarrow> x), path = pth,
             Component = cmp, exact = (case ex of None \<Rightarrow> True | Some b \<Rightarrow> b)\<rparr>) args"
  by (induction args arbitrary: s) (auto simp: addPart_def)

lemma routes_of_calls:
  "map_from i (\<lambda>part k. Route (exact part) (path part) (Component part) k)
     (filter (\<lambda>p. section' p = name)
        (map (\<lambda>(pth, cmp, sec, ex).
            \<lparr>section' = (case sec of None \<Rightarrow> ''main'' | Some x \<Rightarrow> x), path = pth,
             Component = cmp, exact = (case ex of None \<Rightarrow> True | Some b \<Rightarrow> b)\<rparr>) args)) =
   map (\<lambda>(k, (pth, cmp, sec, ex)). Route (case ex of None \<Rightarrow> True | Some b \<Rightarrow> b) pth cmp k)
     (enumerate i
        (filter (\<lambda>(pth, cmp, sec, ex). (case sec of None \<Rightarrow> ''main'' | Some x \<Rightarrow> x) = name) args))"
  by (induction args arbitrary: i) auto

lemma parts_store: "parts (fst (snd (store env s))) = parts (fst s)"
  by (cases s) (simp add: store_def createStore_def Let_def split: option.splits prod.splits)

lemma parts_invoke:
  "parts (fst (snd (invoke env c s))) =
     parts (fst s) @
     (case c of
        AddPart pth cmp sec ex \<Rightarrow>
          [\<lparr>section' = (case sec of None \<Rightarrow> ''main'' | Some x \<Rightarrow> x), path = pth,
            Component = cmp, exact = (case ex of None \<Rightarrow> True | Some b \<Rightarrow> b)\<rparr>]
      | _ \<Rightarrow> [])"
proof (cases c)
  case GetStore
  then show ?thesis
    using parts_store [of env s] by (auto split: prod.splits)
qed (simp_all add: setInitialState_def addReducer_def addEffector_def addEnhancer_def
       addMiddleware_def addPart_def split: prod.splits)

lemma parts_run:
  "parts (fst (run env cs s)) =
     parts (fst s) @
     concat (map (\<lambda>c. case c of
        AddPart pth cmp sec ex \<Rightarrow>
          [\<lparr>section' = (case sec of None \<Rightarrow> ''main'' | Some x \<Rightarrow> x), path = pth,
            Component = cmp, exact = (case ex of None \<Rightarrow> True | Some b \<Rightarrow> b)\<rparr>]
      | _ \<Rightarrow> []) cs)"
proof (induction cs arbitrary: s)
  case Nil
  show ?case by simp
next
  case (Cons c cs)
  show ?case
    by (simp only: run.simps Cons.IH parts_invoke list.map concat.simps append_assoc)
qed



lemma getSection_parts_cong:
  fixes h h' :: "('r, 'e, 'n, 'm, 'c) ComponentHost"
  shows "parts h = parts h' \<Longrightarrow> getSection name exclusive h = getSection name exclusive h'"
  by (simp add: getSection_def)

lemma parts_run_no_AddPart:
  "parts (fst (run env
      (filter (\<lambda>c. case c of AddPart pth cmp sec ex \<Rightarrow> False | _ \<Rightarrow> True) cs) s)) =
   parts (fst s)"
proof (induction cs arbitrary: s)
  case Nil
  show ?case by simp
next
  case (Cons c cs)
  show ?case
    by (cases c) (simp_all add: Cons.IH parts_invoke del: invoke.simps)
qed

lemma routes_of_parts_run:
  "children (getSection name exclusive (fst (run env cs s))) =
     children (getSection name exclusive (fst s)) @
     map (\<lambda>(k, p). Route (exact p) (path p) (Component p) k)
       (enumerate (length (children (getSection name exclusive (fst s))))
          (filter (\<lambda>p. section' p = name)
             (concat (map (\<lambda>c. case c of
                AddPart pth cmp sec ex \<Rightarrow>
                  [\<lparr>section' = (case sec of None \<Rightarrow> ''main'' | Some x \<Rightarrow> x), path = pth,
                    Component = cmp, exact = (case ex of None \<Rightarrow> True | Some b \<Rightarrow> b)\<rparr>]
              | _ \<Rightarrow> []) cs))))"
proof -
  have r: "map (\<lambda>(k, p). Route (exact p) (path p) (Component p) k) (enumerate i ps) =
      map_from i (\<lambda>part k. Route (exact part) (path part) (Component part) k) ps"
    for i and ps :: "'a Part list"
    by (simp add: map_from_eq)
  show ?thesis
    by (simp add: r children_getSection parts_run map_from_append length_map_from)
qed











section \<open>Resolution of a section\<close>

text \<open>
  C1 (exclusive first-match). For every route guard \<open>g\<close>, current path, section name and
  host, the exclusive container returned by \<open>getSection(name, true)\<close> renders the view of
  the first part, in registration order, among the parts of that section whose guard
  passes, and nothing else; it renders nothing when no guard passes. On a new host with
  P1 (\<open>/a\<close>, exact) and then P2 (\<open>/\<close>, not exact) registered in \<open>main\<close>, only P1 renders at
  \<open>/a\<close> and only P2 renders at \<open>/b\<close>.
\<close>

theorem exclusive_first_match:
  "render g current (getSection name (Some True) h) =
     (case find (\<lambda>p. g (path p) (exact p) current)
             (filter (\<lambda>p. section' p = name) (parts h)) of
        None \<Rightarrow> [] | Some p \<Rightarrow> [Component p])
   \<and> render route_guard ''/a''
       (getSection ''main'' (Some True)
          (addPart ''/'' P2 (Some ''main'') (Some False)
             (addPart ''/a'' P1 (Some ''main'') (Some True) (fst (constructor w))))) = [P1]
   \<and> render route_guard ''/b''
       (getSection ''main'' (Some True)
          (addPart ''/'' P2 (Some ''main'') (Some False)
             (addPart ''/a'' P1 (Some ''main'') (Some True) (fst (constructor w))))) = [P2]"
proof (intro conjI)
  show "render g current (getSection name (Some True) h) =
     (case find (\<lambda>p. g (path p) (exact p) current)
             (filter (\<lambda>p. section' p = name) (parts h)) of
        None \<Rightarrow> [] | Some p \<Rightarrow> [Component p])"
    by (simp add: render_def getSection_def Array_map_def render_Switch_map_from)
next
  show "render route_guard ''/a''
       (getSection ''main'' (Some True)
          (addPart ''/'' P2 (Some ''main'') (Some False)
             (addPart ''/a'' P1 (Some ''main'') (Some True) (fst (constructor w))))) = [P1]"
    by (simp add: render_def getSection_def Array_map_def addPart_def constructor_def
          route_guard_def segments_def)
next
  show "render route_guard ''/b''
       (getSection ''main'' (Some True)
          (addPart ''/'' P2 (Some ''main'') (Some False)
             (addPart ''/a'' P1 (Some ''main'') (Some True) (fst (constructor w))))) = [P2]"
    by (simp add: render_def getSection_def Array_map_def addPart_def constructor_def
          route_guard_def segments_def)
qed

text \<open>
  C2 (section filtering). For every host, section name and mode, the children of the
  element returned by \<open>getSection\<close> are the routes of exactly the parts whose section is
  the name, one route per part, in order, keyed by position. The views among the children
  are the views of those parts. The result depends on the parts of that section alone,
  and the parts of all the other sections by themselves give no child.
\<close>

theorem section_filtering:
  "children (getSection name exclusive h) =
     map (\<lambda>(i, p). Route (exact p) (path p) (Component p) i)
       (enumerate 0 (filter (\<lambda>p. section' p = name) (parts h)))
   \<and> route_component ` set (children (getSection name exclusive h)) =
       Component ` {p \<in> set (parts h). section' p = name}
   \<and> getSection name exclusive (h\<lparr>parts := filter (\<lambda>p. section' p = name) (parts h)\<rparr>) =
       getSection name exclusive h
   \<and> children (getSection name exclusive
        (h\<lparr>parts := filter (\<lambda>p. section' p \<noteq> name) (parts h)\<rparr>)) = []"
proof (intro conjI)
  show "children (getSection name exclusive h) =
     map (\<lambda>(i, p). Route (exact p) (path p) (Component p) i)
       (enumerate 0 (filter (\<lambda>p. section' p = name) (parts h)))"
    by (simp add: children_getSection map_from_eq)
next
  have "route_component ` set (children (getSection name exclusive h)) =
      set (map route_component (children (getSection name exclusive h)))"
    by simp
  also have "\<dots> = set (map Component (filter (\<lambda>p. section' p = name) (parts h)))"
    by (simp only: children_getSection route_component_map_from)
  also have "\<dots> = Component ` {p \<in> set (parts h). section' p = name}"
    by simp
  finally show "route_component ` set (children (getSection name exclusive h)) =
       Component ` {p \<in> set (parts h). section' p = name}" .
next
  show "getSection name exclusive (h\<lparr>parts := filter (\<lambda>p. section' p = name) (parts h)\<rparr>) =
       getSection name exclusive h"
    by (simp add: getSection_def)
next
  have "filter (\<lambda>p. section' p = name) (filter (\<lambda>p. section' p \<noteq> name) (parts h)) = []"
    by (induction "parts h") (auto simp: filter_empty_conv)
  then show "children (getSection name exclusive
        (h\<lparr>parts := filter (\<lambda>p. section' p \<noteq> name) (parts h)\<rparr>)) = []"
    by (simp add: children_getSection)
qed

text \<open>
  C3 (order preservation). After any sequence of \<open>addPart\<close> calls on a host, the children
  of \<open>getSection(name, false)\<close> are the children there were before, followed by one route
  for each call whose section is the name, in the order of the calls, keyed by position,
  with nothing inserted, left out or moved. On a new host they are exactly the routes of
  those calls. An omitted section counts as \<open>main\<close>, an omitted \<open>exact\<close> as true. The
  container is the non-exclusive one.
\<close>

theorem order_preservation:
  "children (getSection name (Some False)
      (fst (run env (map (\<lambda>(pth, cmp, sec, ex). AddPart pth cmp sec ex) args) (h, w)))) =
     children (getSection name (Some False) h) @
     map (\<lambda>(k, (pth, cmp, sec, ex)). Route (case ex of None \<Rightarrow> True | Some b \<Rightarrow> b) pth cmp k)
       (enumerate (length (children (getSection name (Some False) h)))
          (filter (\<lambda>(pth, cmp, sec, ex). (case sec of None \<Rightarrow> ''main'' | Some x \<Rightarrow> x) = name) args))
   \<and> children (getSection name (Some False)
      (fst (run env (map (\<lambda>(pth, cmp, sec, ex). AddPart pth cmp sec ex) args) (constructor w')))) =
     map (\<lambda>(k, (pth, cmp, sec, ex)). Route (case ex of None \<Rightarrow> True | Some b \<Rightarrow> b) pth cmp k)
       (enumerate 0
          (filter (\<lambda>(pth, cmp, sec, ex). (case sec of None \<Rightarrow> ''main'' | Some x \<Rightarrow> x) = name) args))
   \<and> element_type (getSection name (Some False)
      (fst (run env (map (\<lambda>(pth, cmp, sec, ex). AddPart pth cmp sec ex) args) (h, w)))) = Div"
proof (intro conjI)
  show "children (getSection name (Some False)
      (fst (run env (map (\<lambda>(pth, cmp, sec, ex). AddPart pth cmp sec ex) args) (h, w)))) =
     children (getSection name (Some False) h) @
     map (\<lambda>(k, (pth, cmp, sec, ex)). Route (case ex of None \<Rightarrow> True | Some b \<Rightarrow> b) pth cmp k)
       (enumerate (length (children (getSection name (Some False) h)))
          (filter (\<lambda>(pth, cmp, sec, ex). (case sec of None \<Rightarrow> ''main'' | Some x \<Rightarrow> x) = name) args))"
    by (simp add: children_getSection parts_run_AddPart map_from_append length_map_from
          routes_of_calls)
next
  show "children (getSection name (Some False)
      (fst (run env (map (\<lambda>(pth, cmp, sec, ex). AddPart pth cmp sec ex) args) (constructor w')))) =
     map (\<lambda>(k, (pth, cmp, sec, ex)). Route (case ex of None \<Rightarrow> True | Some b \<Rightarrow> b) pth cmp k)
       (enumerate 0
          (filter (\<lambda>(pth, cmp, sec, ex). (case sec of None \<Rightarrow> ''main'' | Some x \<Rightarrow> x) = name) args))"
    by (simp add: children_getSection parts_run_AddPart routes_of_calls constructor_def)
next
  show "element_type (getSection name (Some False)
      (fst (run env (map (\<lambda>(pth, cmp, sec, ex). AddPart pth cmp sec ex) args) (h, w)))) = Div"
    by (simp add: element_type_getSection)
qed

text \<open>
  C4 (non-exclusive all-match). For every route guard, current path, section name and
  host, the non-exclusive container returned by \<open>getSection(name, false)\<close> renders the
  views of all the parts of that section whose guard passes, in registration order: none,
  one or many. On a new host with P1 (\<open>/a\<close>, exact) and then P2 (\<open>/\<close>, not exact)
  registered in \<open>main\<close>, both P1 and P2 render at \<open>/a\<close>.
\<close>

theorem non_exclusive_all_match:
  "render g current (getSection name (Some False) h) =
     map Component
       (filter (\<lambda>p. g (path p) (exact p) current)
          (filter (\<lambda>p. section' p = name) (parts h)))
   \<and> render route_guard ''/a''
       (getSection ''main'' (Some False)
          (addPart ''/'' P2 (Some ''main'') (Some False)
             (addPart ''/a'' P1 (Some ''main'') (Some True) (fst (constructor w))))) = [P1, P2]"
proof (intro conjI)
  show "render g current (getSection name (Some False) h) =
     map Component
       (filter (\<lambda>p. g (path p) (exact p) current)
          (filter (\<lambda>p. section' p = name) (parts h)))"
    by (simp add: render_def getSection_def Array_map_def render_div_map_from)
next
  show "render route_guard ''/a''
       (getSection ''main'' (Some False)
          (addPart ''/'' P2 (Some ''main'') (Some False)
             (addPart ''/a'' P1 (Some ''main'') (Some True) (fst (constructor w))))) = [P1, P2]"
    by (simp add: render_def getSection_def Array_map_def addPart_def constructor_def
          route_guard_def segments_def render_div_def render_Route_def)
qed

text \<open>
  C5 (an empty section is not an error). When no part of the host is registered under
  the name, which includes a name never used, \<open>getSection\<close> returns the container of the
  mode asked for (the exclusive one when the mode is omitted) with an empty list of
  children, and it renders nothing. \<open>getSection\<close> has no failing branch: it returns an
  element for every host, name and mode.
\<close>

theorem empty_section:
  assumes "name \<notin> section' ` set (parts h)"
  shows "getSection name exclusive h =
       Element (if (case exclusive of None \<Rightarrow> True | Some b \<Rightarrow> b) then Switch else Div) []
     \<and> render g current (getSection name exclusive h) = []"
proof -
  from assms have "filter (\<lambda>p. section' p = name) (parts h) = []"
    by (auto simp: filter_empty_conv)
  then have e: "getSection name exclusive h =
       Element (if (case exclusive of None \<Rightarrow> True | Some b \<Rightarrow> b) then Switch else Div) []"
    by (simp add: getSection_def Array_map_def)
  have "render g current (getSection name exclusive h) = []"
    unfolding e by (simp add: render_def render_div_def)
  with e show ?thesis
    by simp
qed

theorem empty_section_witness:
  "''main'' \<notin> section' ` set (parts (addPart ''/users'' (1::nat) (Some ''nav'') (Some False)
        (fst (constructor (empty_world :: (nat, nat, nat) world))
          :: (nat, nat, nat, nat, nat) ComponentHost)))
   \<and> getSection ''main'' None (addPart ''/users'' (1::nat) (Some ''nav'') (Some False)
        (fst (constructor (empty_world :: (nat, nat, nat) world))
          :: (nat, nat, nat, nat, nat) ComponentHost)) = Element Switch []
   \<and> render route_guard ''/users''
       (getSection ''main'' None (addPart ''/users'' (1::nat) (Some ''nav'') (Some False)
        (fst (constructor (empty_world :: (nat, nat, nat) world))
          :: (nat, nat, nat, nat, nat) ComponentHost))) = []
   \<and> getSection ''missing-name'' (Some False)
        (fst (constructor (empty_world :: (nat, nat, nat) world))
          :: (nat, nat, nat, nat, nat) ComponentHost) = Element Div []"
  using empty_section [of "''main''" "addPart ''/users'' (1::nat) (Some ''nav'') (Some False)
        (fst (constructor (empty_world :: (nat, nat, nat) world))
          :: (nat, nat, nat, nat, nat) ComponentHost)" None route_guard "''/users''"]
    empty_section [of "''missing-name''" "fst (constructor (empty_world :: (nat, nat, nat) world))
          :: (nat, nat, nat, nat, nat) ComponentHost" "Some False"
          route_guard "''/''"]
  by (simp add: addPart_def constructor_def empty_world_def render_def)


section \<open>Registration\<close>

text \<open>
  C6 (\<open>addPart\<close> always succeeds and is chainable). For every path, view, section and
  exact flag, given or omitted, \<open>addPart\<close> changes the host in the parts sequence only: it
  appends the one entry made of its arguments at the end, so the length grows by one and
  all earlier entries stay as they were. The call returns \<open>this\<close>. After
  \<open>addPart(..).addPart(..)\<close> both entries are in the sequence, in call order, and each
  is among the routes \<open>getSection\<close> returns for its section.
\<close>

theorem addPart_appends:
  "addPart pth cmp sec ex h =
     h\<lparr>parts := parts h @
        [\<lparr>section' = (case sec of None \<Rightarrow> ''main'' | Some s \<Rightarrow> s), path = pth,
          Component = cmp, exact = (case ex of None \<Rightarrow> True | Some b \<Rightarrow> b)\<rparr>]\<rparr>
   \<and> length (parts (addPart pth cmp sec ex h)) = Suc (length (parts h))
   \<and> take (length (parts h)) (parts (addPart pth cmp sec ex h)) = parts h
   \<and> invoke env (AddPart pth cmp sec ex) (h, w) = (This, addPart pth cmp sec ex h, w)
   \<and> parts (addPart pth2 cmp2 (Some sec2) (Some ex2) (addPart pth1 cmp1 (Some sec1) (Some ex1) h)) =
       parts h @ [\<lparr>section' = sec1, path = pth1, Component = cmp1, exact = ex1\<rparr>,
                  \<lparr>section' = sec2, path = pth2, Component = cmp2, exact = ex2\<rparr>]
   \<and> (pth1, cmp1, ex1) \<in> (\<lambda>r. (route_path r, route_component r, route_exact r)) `
        set (children (getSection sec1 exclusive
          (addPart pth2 cmp2 (Some sec2) (Some ex2) (addPart pth1 cmp1 (Some sec1) (Some ex1) h))))
   \<and> (pth2, cmp2, ex2) \<in> (\<lambda>r. (route_path r, route_component r, route_exact r)) `
        set (children (getSection sec2 exclusive
          (addPart pth2 cmp2 (Some sec2) (Some ex2) (addPart pth1 cmp1 (Some sec1) (Some ex1) h))))"
proof -
  let ?P1 = "\<lparr>section' = sec1, path = pth1, Component = cmp1, exact = ex1\<rparr>"
  let ?P2 = "\<lparr>section' = sec2, path = pth2, Component = cmp2, exact = ex2\<rparr>"
  let ?h2 = "addPart pth2 cmp2 (Some sec2) (Some ex2) (addPart pth1 cmp1 (Some sec1) (Some ex1) h)"
  have props: "(\<lambda>r. (route_path r, route_component r, route_exact r)) `
      set (children (getSection name exclusive k)) =
      (\<lambda>p. (path p, Component p, exact p)) ` {p \<in> set (parts k). section' p = name}"
    for name and k :: "('a, 'b, 'c, 'd, 'e) ComponentHost"
  proof -
    have "map (\<lambda>r. (route_path r, route_component r, route_exact r))
            (map_from i (\<lambda>part k. Route (exact part) (path part) (Component part) k) ps) =
          map (\<lambda>p. (path p, Component p, exact p)) ps" for i and ps :: "'e Part list"
      by (induction ps arbitrary: i) auto
    then have "map (\<lambda>r. (route_path r, route_component r, route_exact r))
        (children (getSection name exclusive k)) =
        map (\<lambda>p. (path p, Component p, exact p)) (filter (\<lambda>p. section' p = name) (parts k))"
      by (simp only: children_getSection)
    then have "set (map (\<lambda>r. (route_path r, route_component r, route_exact r))
        (children (getSection name exclusive k))) =
        set (map (\<lambda>p. (path p, Component p, exact p)) (filter (\<lambda>p. section' p = name) (parts k)))"
      by simp
    then show ?thesis by simp
  qed
  have p2: "parts ?h2 = parts h @ [?P1, ?P2]"
    by (simp add: addPart_def)
  have q1: "(pth1, cmp1, ex1) \<in> (\<lambda>r. (route_path r, route_component r, route_exact r)) `
        set (children (getSection sec1 exclusive ?h2))"
    unfolding props p2 by (rule image_eqI [where x = ?P1]) simp_all
  have q2: "(pth2, cmp2, ex2) \<in> (\<lambda>r. (route_path r, route_component r, route_exact r)) `
        set (children (getSection sec2 exclusive ?h2))"
    unfolding props p2 by (rule image_eqI [where x = ?P2]) simp_all
  have a: "addPart pth cmp sec ex h =
     h\<lparr>parts := parts h @
        [\<lparr>section' = (case sec of None \<Rightarrow> ''main'' | Some s \<Rightarrow> s), path = pth,
          Component = cmp, exact = (case ex of None \<Rightarrow> True | Some b \<Rightarrow> b)\<rparr>]\<rparr>"
    by (simp add: addPart_def)
  have b: "length (parts (addPart pth cmp sec ex h)) = Suc (length (parts h))"
    by (simp add: addPart_def)
  have c: "take (length (parts h)) (parts (addPart pth cmp sec ex h)) = parts h"
    by (simp add: addPart_def)
  have d: "invoke env (AddPart pth cmp sec ex) (h, w) = (This, addPart pth cmp sec ex h, w)"
    by simp
  from a b c d p2 q1 q2 show ?thesis
    by (intro conjI)
qed

text \<open>
  C9 (default arguments). \<open>addPart\<close> without a section registers under \<open>main\<close>,
  without \<open>exact\<close> registers with exact true, and \<open>getSection\<close> without \<open>exclusive\<close> is
  \<open>getSection(name, true)\<close>, the exclusive container.
\<close>

theorem default_arguments:
  "addPart pth cmp None ex h = addPart pth cmp (Some ''main'') ex h
   \<and> addPart pth cmp sec None h = addPart pth cmp sec (Some True) h
   \<and> last (parts (addPart pth cmp None None h)) =
       \<lparr>section' = ''main'', path = pth, Component = cmp, exact = True\<rparr>
   \<and> getSection name None h = getSection name (Some True) h
   \<and> element_type (getSection name None h) = Switch"
  by (simp add: addPart_def getSection_def)

text \<open>
  C7 (resolution has no side effect, is not memoized and is idempotent). A call of
  \<open>getSection\<close> leaves the host and the heap as they were and returns the element
  computed from the host. A second call with the same arguments returns an equal element,
  directly or after any run of calls other than \<open>addPart\<close> (\<open>setInitialState\<close>,
  \<open>addReducer\<close>, \<open>addEffector\<close>, \<open>addEnhancer\<close>, \<open>addMiddleware\<close>, reads of \<open>store\<close>,
  other \<open>getSection\<close> calls). After an \<open>addPart\<close> for that section, with any such calls
  around it, the next call returns the same container with the former children followed
  by the route of the new part. In general, after any run of calls the result is the
  former container with the former children followed by the routes of the run's
  \<open>addPart\<close> calls for that section, in call order.
\<close>

theorem getSection_pure:
  fixes s :: "('r, 'e, 'n, 'm, 'c) ComponentHost \<times> ('v, 'red, 'n) world"
    and h :: "('r, 'e, 'n, 'm, 'c) ComponentHost"
    and cs cs1 cs2 :: "('v, 'r, 'e, 'n, 'm, 'c) call list"
  shows "snd (invoke env (GetSection name exclusive) s) = s
   \<and> fst (invoke env (GetSection name exclusive) (snd (invoke env (GetSection name exclusive) s))) =
       fst (invoke env (GetSection name exclusive) s)
   \<and> fst (invoke env (GetSection name exclusive) s) = Rendered (getSection name exclusive (fst s))
   \<and> children (getSection name exclusive (addPart pth cmp (Some name) ex h)) =
       children (getSection name exclusive h) @
       [Route (case ex of None \<Rightarrow> True | Some b \<Rightarrow> b) pth cmp
          (length (children (getSection name exclusive h)))]
   \<and> fst (invoke env (GetSection name exclusive)
        (snd (invoke env (AddPart pth cmp (Some name) ex)
           (snd (invoke env (GetSection name exclusive) s))))) =
       Rendered (Element (element_type (getSection name exclusive (fst s)))
         (children (getSection name exclusive (fst s)) @
          [Route (case ex of None \<Rightarrow> True | Some b \<Rightarrow> b) pth cmp
             (length (children (getSection name exclusive (fst s))))]))
   \<and> fst (invoke env (GetSection name exclusive)
        (run env (filter (\<lambda>c. case c of AddPart pth cmp sec ex \<Rightarrow> False | _ \<Rightarrow> True) cs)
           (snd (invoke env (GetSection name exclusive) s)))) =
       fst (invoke env (GetSection name exclusive) s)
   \<and> fst (invoke env (GetSection name exclusive)
        (run env (filter (\<lambda>c. case c of AddPart pth cmp sec ex \<Rightarrow> False | _ \<Rightarrow> True) cs2)
           (snd (invoke env (AddPart pth cmp (Some name) ex)
              (run env (filter (\<lambda>c. case c of AddPart pth cmp sec ex \<Rightarrow> False | _ \<Rightarrow> True) cs1)
                 (snd (invoke env (GetSection name exclusive) s))))))) =
       Rendered (Element (element_type (getSection name exclusive (fst s)))
         (children (getSection name exclusive (fst s)) @
          [Route (case ex of None \<Rightarrow> True | Some b \<Rightarrow> b) pth cmp
             (length (children (getSection name exclusive (fst s))))]))
   \<and> getSection name exclusive (fst (run env cs s)) =
       Element (element_type (getSection name exclusive (fst s)))
         (children (getSection name exclusive (fst s)) @
          map (\<lambda>(k, p). Route (exact p) (path p) (Component p) k)
            (enumerate (length (children (getSection name exclusive (fst s))))
               (filter (\<lambda>p. section' p = name)
                  (concat (map (\<lambda>c. case c of
                     AddPart pth cmp sec ex \<Rightarrow>
                       [\<lparr>section' = (case sec of None \<Rightarrow> ''main'' | Some x \<Rightarrow> x), path = pth,
                         Component = cmp, exact = (case ex of None \<Rightarrow> True | Some b \<Rightarrow> b)\<rparr>]
                   | _ \<Rightarrow> []) cs)))))"
proof -
  let ?noAP = "\<lambda>c :: ('v, 'r, 'e, 'n, 'm, 'c) call.
      case c of AddPart pth cmp sec ex \<Rightarrow> False | _ \<Rightarrow> True"
  have c: "children (getSection name exclusive (addPart pth cmp (Some name) ex k)) =
       children (getSection name exclusive k) @
       [Route (case ex of None \<Rightarrow> True | Some b \<Rightarrow> b) pth cmp
          (length (children (getSection name exclusive k)))]"
    for k :: "('r, 'e, 'n, 'm, 'c) ComponentHost"
    by (simp add: children_getSection addPart_def map_from_append length_map_from)
  have t: "element_type (getSection name exclusive (addPart pth cmp (Some name) ex k)) =
      element_type (getSection name exclusive k)"
    for k :: "('r, 'e, 'n, 'm, 'c) ComponentHost"
    by (simp add: element_type_getSection)
  have e: "getSection name exclusive (addPart pth cmp (Some name) ex k) =
      Element (element_type (getSection name exclusive k))
         (children (getSection name exclusive k) @
          [Route (case ex of None \<Rightarrow> True | Some b \<Rightarrow> b) pth cmp
             (length (children (getSection name exclusive k)))])"
    for k :: "('r, 'e, 'n, 'm, 'c) ComponentHost"
    using c [of k] t [of k]
    by (metis element.collapse)
  have keep: "getSection name exclusive (fst (run env (filter ?noAP ds) u)) =
      getSection name exclusive (fst u)"
    for ds and u :: "('r, 'e, 'n, 'm, 'c) ComponentHost \<times> ('v, 'red, 'n) world"
    by (rule getSection_parts_cong) (rule parts_run_no_AddPart)
  have c6: "fst (invoke env (GetSection name exclusive)
        (run env (filter ?noAP cs) (snd (invoke env (GetSection name exclusive) s)))) =
       fst (invoke env (GetSection name exclusive) s)"
    by (simp add: keep)
  have "getSection name exclusive
      (fst (run env (filter ?noAP cs2)
         (snd (invoke env (AddPart pth cmp (Some name) ex) (run env (filter ?noAP cs1) s))))) =
     getSection name exclusive (addPart pth cmp (Some name) ex (fst (run env (filter ?noAP cs1) s)))"
    by (simp add: keep)
  also have "\<dots> = Element (element_type (getSection name exclusive (fst s)))
         (children (getSection name exclusive (fst s)) @
          [Route (case ex of None \<Rightarrow> True | Some b \<Rightarrow> b) pth cmp
             (length (children (getSection name exclusive (fst s))))])"
    by (simp only: e keep)
  finally have c7: "fst (invoke env (GetSection name exclusive)
        (run env (filter ?noAP cs2)
           (snd (invoke env (AddPart pth cmp (Some name) ex)
              (run env (filter ?noAP cs1)
                 (snd (invoke env (GetSection name exclusive) s))))))) =
       Rendered (Element (element_type (getSection name exclusive (fst s)))
         (children (getSection name exclusive (fst s)) @
          [Route (case ex of None \<Rightarrow> True | Some b \<Rightarrow> b) pth cmp
             (length (children (getSection name exclusive (fst s))))]))"
    by simp
  have "element_type (getSection name exclusive (fst (run env cs s))) =
      element_type (getSection name exclusive (fst s))"
    by (simp add: element_type_getSection)
  then have c8: "getSection name exclusive (fst (run env cs s)) =
       Element (element_type (getSection name exclusive (fst s)))
         (children (getSection name exclusive (fst s)) @
          map (\<lambda>(k, p). Route (exact p) (path p) (Component p) k)
            (enumerate (length (children (getSection name exclusive (fst s))))
               (filter (\<lambda>p. section' p = name)
                  (concat (map (\<lambda>c. case c of
                     AddPart pth cmp sec ex \<Rightarrow>
                       [\<lparr>section' = (case sec of None \<Rightarrow> ''main'' | Some x \<Rightarrow> x), path = pth,
                         Component = cmp, exact = (case ex of None \<Rightarrow> True | Some b \<Rightarrow> b)\<rparr>]
                   | _ \<Rightarrow> []) cs)))))"
    using routes_of_parts_run [of name exclusive env cs s]
    by (metis element.collapse)
  have c1: "snd (invoke env (GetSection name exclusive) s) = s"
    by simp
  have c2: "fst (invoke env (GetSection name exclusive)
        (snd (invoke env (GetSection name exclusive) s))) =
       fst (invoke env (GetSection name exclusive) s)"
    by simp
  have c3: "fst (invoke env (GetSection name exclusive) s) =
       Rendered (getSection name exclusive (fst s))"
    by simp
  have c5: "fst (invoke env (GetSection name exclusive)
        (snd (invoke env (AddPart pth cmp (Some name) ex)
           (snd (invoke env (GetSection name exclusive) s))))) =
       Rendered (Element (element_type (getSection name exclusive (fst s)))
         (children (getSection name exclusive (fst s)) @
          [Route (case ex of None \<Rightarrow> True | Some b \<Rightarrow> b) pth cmp
             (length (children (getSection name exclusive (fst s))))]))"
    using e [of "fst s"] by simp
  show ?thesis
    by (intro conjI) (rule c1 c2 c3 c [of h] c5 c6 c7 c8)+
qed

text \<open>
  C8 (the parts sequence is append-only). A new host has no parts. Every run of calls of
  \<open>setInitialState\<close>, \<open>addReducer\<close>, \<open>addEffector\<close>, \<open>addEnhancer\<close>, \<open>addMiddleware\<close>,
  \<open>addPart\<close>, \<open>getSection\<close> and reads of \<open>store\<close> leaves the parts there were as a prefix
  of the parts afterwards, followed by exactly the entries of the \<open>addPart\<close> calls of the
  run, in call order. Each call other than \<open>addPart\<close> leaves the sequence as it was. Of
  the two methods outside this list, \<open>render\<close> reads \<open>store\<close> and calls \<open>getSection\<close>,
  and \<open>loadComponents\<close> hands the host to the initialisers it finds.
\<close>

theorem parts_append_only:
  fixes s :: "('r, 'e, 'n, 'm, 'c) ComponentHost \<times> ('v, 'red, 'n) world"
  shows "parts (fst (constructor w)) = []
   \<and> parts (fst (run env cs s)) =
       parts (fst s) @
       concat (map (\<lambda>c. case c of
          AddPart pth cmp sec ex \<Rightarrow>
            [\<lparr>section' = (case sec of None \<Rightarrow> ''main'' | Some x \<Rightarrow> x), path = pth,
              Component = cmp, exact = (case ex of None \<Rightarrow> True | Some b \<Rightarrow> b)\<rparr>]
        | _ \<Rightarrow> []) cs)
   \<and> prefix (parts (fst s)) (parts (fst (run env cs s)))
   \<and> parts (fst (snd (invoke env (SetInitialState key val) s))) = parts (fst s)
   \<and> parts (fst (snd (invoke env (AddReducer r) s))) = parts (fst s)
   \<and> parts (fst (snd (invoke env (AddEffector e) s))) = parts (fst s)
   \<and> parts (fst (snd (invoke env (AddEnhancer n) s))) = parts (fst s)
   \<and> parts (fst (snd (invoke env (AddMiddleware m) s))) = parts (fst s)
   \<and> parts (fst (snd (invoke env GetStore s))) = parts (fst s)
   \<and> parts (fst (snd (invoke env (GetSection name exclusive) s))) = parts (fst s)
   \<and> parts (fst (snd (invoke env (AddPart pth cmp sec ex) s))) =
       parts (fst s) @
       [\<lparr>section' = (case sec of None \<Rightarrow> ''main'' | Some x \<Rightarrow> x), path = pth,
         Component = cmp, exact = (case ex of None \<Rightarrow> True | Some b \<Rightarrow> b)\<rparr>]"
proof -
  have a: "parts (fst (constructor w)) = []"
    by (simp add: constructor_def)
  have b: "prefix (parts (fst s)) (parts (fst (run env cs s)))"
    by (simp only: parts_run prefixI)
  have c: "parts (fst (snd (invoke env GetStore s))) = parts (fst s)"
    by (simp only: parts_invoke call.case append_Nil2)
  show ?thesis
    apply (intro conjI)
              apply (rule a)
             apply (rule parts_run)
            apply (rule b)
           apply (simp_all only: parts_invoke call.case append_Nil2)
    done
qed

section \<open>The store\<close>




end
